theory Spec2Isabelle
  imports Main
begin

unbundle bit_operations_syntax

section \<open>Graphics buffer operations (display/pixels.py)\<close>

subsection \<open>The byte matrix behind a pixel page\<close>

text \<open>
  Modelled from the spec: \<open>bytematrix.ByteMatrix\<close>, the storage class that
  \<open>PixelPage\<close> instantiates as \<open>ByteMatrix(height, width)\<close>; its module is not among
  the sources. The spec describes it as one dense 2D grid of unsigned integer pixel
  attributes of dimensions height by width, where reads and writes outside the grid are
  out of bounds. The grid is a list of rows; item access outside
  \<open>0 \<le> y < height\<close>, \<open>0 \<le> x < width\<close> is the \<open>IndexError\<close> that
  \<open>put_pixel\<close> and \<open>get_pixel\<close> catch. The matrix is built without the bit mask
  (the mask is a field of the page only), so a store keeps the value it is given.
\<close>

datatype py_error = IndexError

definition ByteMatrix :: "nat \<Rightarrow> nat \<Rightarrow> nat list list" where
  "ByteMatrix h w = replicate h (replicate w 0)"

definition in_grid :: "nat list list \<Rightarrow> int \<Rightarrow> int \<Rightarrow> bool" where
  "in_grid m y x =
     (if 0 \<le> y \<and> y < int (length m) then 0 \<le> x \<and> x < int (length (m ! nat y))
      else False)"

definition bm_getitem :: "nat list list \<Rightarrow> int \<Rightarrow> int \<Rightarrow> py_error + nat" where
  "bm_getitem m y x =
     (if in_grid m y x then Inr (m ! nat y ! nat x) else Inl IndexError)"

definition bm_setitem :: "nat list list \<Rightarrow> int \<Rightarrow> int \<Rightarrow> nat \<Rightarrow> py_error + nat list list" where
  "bm_setitem m y x v =
     (if in_grid m y x then Inr (m[nat y := (m ! nat y)[nat x := v]])
      else Inl IndexError)"

text \<open>
  Modelled from the spec: slicing of the absent \<open>ByteMatrix\<close>. The slice
  \<open>m[ya:yb, xa:xb]\<close> is a copy of the rows \<open>ya..yb-1\<close> cut to the columns
  \<open>xa..xb-1\<close>; assigning a grid to the slice replaces exactly those cells, row by row.
  Indices are natural numbers here: rectangles are given by non-negative corners.
\<close>

definition row_slice :: "nat list \<Rightarrow> nat \<Rightarrow> nat \<Rightarrow> nat list" where
  "row_slice r xa xb = take (xb - xa) (drop xa r)"

definition row_set_slice :: "nat list \<Rightarrow> nat \<Rightarrow> nat \<Rightarrow> nat list \<Rightarrow> nat list" where
  "row_set_slice r xa xb v = take xa r @ v @ drop xb r"

definition bm_slice :: "nat list list \<Rightarrow> nat \<Rightarrow> nat \<Rightarrow> nat \<Rightarrow> nat \<Rightarrow> nat list list" where
  "bm_slice m ya yb xa xb = map (\<lambda>r. row_slice r xa xb) (take (yb - ya) (drop ya m))"

definition bm_set_slice ::
  "nat list list \<Rightarrow> nat \<Rightarrow> nat \<Rightarrow> nat \<Rightarrow> nat \<Rightarrow> nat list list \<Rightarrow> nat list list" where
  "bm_set_slice m ya yb xa xb v =
     take ya m
     @ map2 (\<lambda>r w. row_set_slice r xa xb w) (take (yb - ya) (drop ya m)) v
     @ drop yb m"

text \<open>
  Modelled from the spec: the bitwise operators of the absent \<open>ByteMatrix\<close>, which
  combine two same-shaped grids cell by cell (\<open>operator.iand\<close>, \<open>ior\<close>, \<open>ixor\<close>)
  or a grid with one number (\<open>_y ^ mask\<close>).
\<close>

definition bm_elementwise ::
  "(nat \<Rightarrow> nat \<Rightarrow> nat) \<Rightarrow> nat list list \<Rightarrow> nat list list \<Rightarrow> nat list list" where
  "bm_elementwise f a b = map2 (\<lambda>ra rb. map2 f ra rb) a b"

definition bm_xor_scalar :: "nat list list \<Rightarrow> nat \<Rightarrow> nat list list" where
  "bm_xor_scalar a k = map (map (\<lambda>v. v XOR k)) a"

subsection \<open>PixelPage\<close>

record PixelPage =
  buffer :: "nat list list"
  pp_width :: nat
  pp_height :: nat
  pp_mask :: nat

definition PixelPage_init :: "nat \<Rightarrow> nat \<Rightarrow> nat \<Rightarrow> PixelPage" where
  "PixelPage_init width height bitsperpixel =
     \<lparr> buffer = ByteMatrix height width,
       pp_width = width,
       pp_height = height,
       pp_mask = push_bit bitsperpixel 1 - 1 \<rparr>"

datatype operation_token = tk_PSET | tk_PRESET | tk_AND | tk_OR | tk_XOR

fun operations ::
  "nat \<Rightarrow> operation_token \<Rightarrow> nat list list \<Rightarrow> nat list list \<Rightarrow> nat list list" where
  "operations m tk_PSET = (\<lambda>x y. y)"
| "operations m tk_PRESET = (\<lambda>x y. bm_xor_scalar y m)"
| "operations m tk_AND = bm_elementwise (\<lambda>a b. a AND b)"
| "operations m tk_OR = bm_elementwise (\<lambda>a b. a OR b)"
| "operations m tk_XOR = bm_elementwise (\<lambda>a b. a XOR b)"

definition put_pixel :: "PixelPage \<Rightarrow> int \<Rightarrow> int \<Rightarrow> nat \<Rightarrow> PixelPage" where
  "put_pixel p x y attr =
     (case bm_setitem (buffer p) y x attr of
        Inr b \<Rightarrow> p\<lparr>buffer := b\<rparr>
      | Inl IndexError \<Rightarrow> p)"

definition get_pixel :: "PixelPage \<Rightarrow> int \<Rightarrow> int \<Rightarrow> nat" where
  "get_pixel p x y =
     (case bm_getitem (buffer p) y x of
        Inr v \<Rightarrow> v
      | Inl IndexError \<Rightarrow> 0)"

definition get_rect :: "PixelPage \<Rightarrow> nat \<Rightarrow> nat \<Rightarrow> nat \<Rightarrow> nat \<Rightarrow> nat list list" where
  "get_rect p x0 y0 x1 y1 = bm_slice (buffer p) y0 (y1 + 1) x0 (x1 + 1)"

definition put_rect ::
  "PixelPage \<Rightarrow> nat \<Rightarrow> nat \<Rightarrow> nat \<Rightarrow> nat \<Rightarrow> nat list list \<Rightarrow> operation_token
     \<Rightarrow> nat list list \<times> PixelPage" where
  "put_rect p x0 y0 x1 y1 array operation_token =
     (let result = operations (pp_mask p) operation_token
                     (bm_slice (buffer p) y0 (y1 + 1) x0 (x1 + 1)) array
      in (result, p\<lparr>buffer := bm_set_slice (buffer p) y0 (y1 + 1) x0 (x1 + 1) result\<rparr>))"

text \<open>A page is well formed when its grid has \<open>height\<close> rows of \<open>width\<close> cells each,
  as the constructor builds it.\<close>

definition wf_page :: "PixelPage \<Rightarrow> bool" where
  "wf_page p =
     (length (buffer p) = pp_height p \<and> list_all (\<lambda>r. length r = pp_width p) (buffer p))"

definition in_bounds :: "PixelPage \<Rightarrow> int \<Rightarrow> int \<Rightarrow> bool" where
  "in_bounds p x y = (0 \<le> x \<and> x < int (pp_width p) \<and> 0 \<le> y \<and> y < int (pp_height p))"

text \<open>A source array has the shape of the rectangle \<open>(x0, y0, x1, y1)\<close>.\<close>

definition same_shape :: "nat list list \<Rightarrow> nat \<Rightarrow> nat \<Rightarrow> nat \<Rightarrow> nat \<Rightarrow> bool" where
  "same_shape array x0 y0 x1 y1 =
     (length array = y1 + 1 - y0 \<and> list_all (\<lambda>r. length r = x1 + 1 - x0) array)"

text \<open>A sample page of 3 by 2 pixels with 2 bits per pixel.\<close>

definition demo_page :: PixelPage where
  "demo_page = (PixelPage_init 3 2 2)\<lparr>buffer := [[0, 1, 2], [3, 2, 1]]\<rparr>"

section \<open>Text operations (display/textscreen.py)\<close>

subsection \<open>Collaborators of the text screen\<close>

text \<open>
  The screen mode object: the text screen reads its \<open>width\<close>, \<open>height\<close> and
  \<open>is_text_mode\<close> attributes only.
\<close>

record Mode =
  mode_width :: int
  mode_height :: int
  is_text_mode :: bool

text \<open>
  Modelled from the spec: the \<open>error\<close> module (\<open>error.throw_if\<close>,
  \<open>error.range_check\<close>), which is not among the sources. Entry points raise the
  illegal-function-call runtime error on out-of-range input, and all range checks are
  inclusive. \<open>range_check\<close> is the test that every given (non-\<open>None\<close>) value lies
  in the range; the callers below raise \<open>IFC\<close> where it fails. \<open>TypeError\<close> is
  Python's own error for comparing \<open>None\<close> with a number.
\<close>

datatype error = IFC | TypeError

definition range_check :: "int \<Rightarrow> int \<Rightarrow> int option list \<Rightarrow> bool" where
  "range_check lower upper allvars =
     list_all (\<lambda>v. case v of None \<Rightarrow> True | Some n \<Rightarrow> lower \<le> n \<and> n \<le> upper) allvars"

text \<open>
  Modelled from the spec: the cursor collaborator (contract \<open>move(row, col[, attr,
  width])\<close>, \<open>set_visibility(bool)\<close>, \<open>set_shape(start, stop)\<close>), which is not
  among the sources. The record keeps what the last calls passed.
\<close>

record Cursor =
  cur_row :: int
  cur_col :: int
  cur_attr_width :: "(int \<times> int) option"
  cur_visible :: bool
  cur_shape :: "int \<times> int"

definition cursor_move :: "int \<Rightarrow> int \<Rightarrow> (int \<times> int) option \<Rightarrow> Cursor \<Rightarrow> Cursor" where
  "cursor_move row col attr_width c =
     c\<lparr>cur_row := row, cur_col := col,
       cur_attr_width := (case attr_width of None \<Rightarrow> cur_attr_width c | Some aw \<Rightarrow> Some aw)\<rparr>"

definition cursor_set_visibility :: "bool \<Rightarrow> Cursor \<Rightarrow> Cursor" where
  "cursor_set_visibility on c = c\<lparr>cur_visible := on\<rparr>"

definition cursor_set_shape :: "int \<Rightarrow> int \<Rightarrow> Cursor \<Rightarrow> Cursor" where
  "cursor_set_shape start stop c = c\<lparr>cur_shape := (start, stop)\<rparr>"

text \<open>
  The active text page (\<open>self._apage\<close>) is an external collaborator whose class is
  not among the sources. The text screen is therefore parametrised by the page type
  \<open>'p\<close> and by the page operations it calls; every theorem below holds for any page
  implementation. Each operation takes the page first and returns the updated page
  where the Python method mutates it.
\<close>

record 'p TextPage_ops =
  pg_put_char_attr :: "'p \<Rightarrow> int \<Rightarrow> int \<Rightarrow> char \<Rightarrow> int \<Rightarrow> bool \<Rightarrow> 'p"
  pg_scroll_up :: "'p \<Rightarrow> int \<Rightarrow> int \<Rightarrow> int \<Rightarrow> 'p"
  pg_scroll_down :: "'p \<Rightarrow> int \<Rightarrow> int \<Rightarrow> int \<Rightarrow> 'p"
  pg_set_wrap :: "'p \<Rightarrow> int \<Rightarrow> bool \<Rightarrow> 'p"
  pg_wraps :: "'p \<Rightarrow> int \<Rightarrow> bool"
  pg_set_row_length :: "'p \<Rightarrow> int \<Rightarrow> int \<Rightarrow> 'p"
  pg_row_length :: "'p \<Rightarrow> int \<Rightarrow> int"
  pg_get_attr :: "'p \<Rightarrow> int \<Rightarrow> int \<Rightarrow> int"
  pg_get_charwidth :: "'p \<Rightarrow> int \<Rightarrow> int \<Rightarrow> int"
  pg_find_end_of_line :: "'p \<Rightarrow> int \<Rightarrow> int"

subsection \<open>ScrollArea\<close>

record ScrollArea =
  sa_height :: int
  sa_active :: bool
  sa_top :: int
  sa_bottom :: int

definition ScrollArea_set :: "int \<Rightarrow> int \<Rightarrow> ScrollArea \<Rightarrow> ScrollArea" where
  "ScrollArea_set start stop a = a\<lparr>sa_active := True, sa_top := start, sa_bottom := stop\<rparr>"

definition ScrollArea_unset :: "ScrollArea \<Rightarrow> ScrollArea" where
  "ScrollArea_unset a = (ScrollArea_set 1 (sa_height a - 1) a)\<lparr>sa_active := False\<rparr>"

definition ScrollArea_init :: "Mode \<Rightarrow> ScrollArea" where
  "ScrollArea_init m =
     ScrollArea_unset \<lparr>sa_height = mode_height m, sa_active = False, sa_top = 1, sa_bottom = 1\<rparr>"

definition ScrollArea_init_mode :: "Mode \<Rightarrow> ScrollArea \<Rightarrow> ScrollArea" where
  "ScrollArea_init_mode m a =
     (let a1 = a\<lparr>sa_height := mode_height m\<rparr> in
      if sa_bottom a1 = sa_height a1 then ScrollArea_set 1 (sa_height a1) a1
      else ScrollArea_unset a1)"

definition bounds :: "ScrollArea \<Rightarrow> int \<times> int" where
  "bounds a = (sa_top a, sa_bottom a)"

subsection \<open>BottomBar\<close>

record BottomBar =
  bb_contents :: "(char \<times> bool) list"
  bb_visible :: bool

definition BottomBar_init :: BottomBar where
  "BottomBar_init = \<lparr>bb_contents = replicate 80 (CHR '' '', False), bb_visible = False\<rparr>"

subsection \<open>TextScreen\<close>

record 'p TextScreen =
  tandytext :: bool
  cursor :: Cursor
  current_row :: int
  current_col :: int
  overflow :: bool
  scroll_area :: ScrollArea
  bottom_row_allowed :: bool
  bottom_bar :: BottomBar
  mode :: Mode
  attr :: int
  apage :: 'p

definition set_wrap :: "'p TextPage_ops \<Rightarrow> int \<Rightarrow> bool \<Rightarrow> 'p TextScreen \<Rightarrow> 'p TextScreen" where
  "set_wrap ops row wrap s = s\<lparr>apage := pg_set_wrap ops (apage s) row wrap\<rparr>"

definition wraps :: "'p TextPage_ops \<Rightarrow> int \<Rightarrow> 'p TextScreen \<Rightarrow> bool" where
  "wraps ops row s = pg_wraps ops (apage s) row"

definition set_row_length :: "'p TextPage_ops \<Rightarrow> int \<Rightarrow> int \<Rightarrow> 'p TextScreen \<Rightarrow> 'p TextScreen" where
  "set_row_length ops row len s = s\<lparr>apage := pg_set_row_length ops (apage s) row len\<rparr>"

definition row_length :: "'p TextPage_ops \<Rightarrow> int \<Rightarrow> 'p TextScreen \<Rightarrow> int" where
  "row_length ops row s = pg_row_length ops (apage s) row"

definition move_cursor :: "'p TextPage_ops \<Rightarrow> int \<Rightarrow> int \<Rightarrow> 'p TextScreen \<Rightarrow> 'p TextScreen" where
  "move_cursor ops row col s =
     (let s1 = s\<lparr>current_row := row, current_col := col\<rparr> in
      if is_text_mode (mode s1) then
        (let width = pg_get_charwidth ops (apage s1) row col;
             a = pg_get_attr ops (apage s1) row col
         in s1\<lparr>cursor := cursor_move row col (Some (a, width)) (cursor s1)\<rparr>)
      else s1\<lparr>cursor := cursor_move row col None (cursor s1)\<rparr>)"

definition scroll :: "'p TextPage_ops \<Rightarrow> int option \<Rightarrow> 'p TextScreen \<Rightarrow> 'p TextScreen" where
  "scroll ops from_row s =
     (let from_row = (case from_row of None \<Rightarrow> sa_top (scroll_area s) | Some r \<Rightarrow> r);
          s1 = s\<lparr>apage := pg_scroll_up ops (apage s) from_row (sa_bottom (scroll_area s)) (attr s)\<rparr>
      in if current_row s1 > from_row
         then move_cursor ops (current_row s1 - 1) (current_col s1) s1
         else s1)"

definition scroll_down :: "'p TextPage_ops \<Rightarrow> int \<Rightarrow> 'p TextScreen \<Rightarrow> 'p TextScreen" where
  "scroll_down ops from_row s =
     (let s1 = s\<lparr>apage := pg_scroll_down ops (apage s) from_row (sa_bottom (scroll_area s)) (attr s)\<rparr>
      in if current_row s1 \<ge> from_row
         then move_cursor ops (current_row s1 + 1) (current_col s1) s1
         else s1)"

text \<open>\<open>check_pos\<close> returns whether the position is unchanged, and the corrected screen.\<close>

definition check_pos :: "'p TextPage_ops \<Rightarrow> bool \<Rightarrow> 'p TextScreen \<Rightarrow> bool \<times> 'p TextScreen" where
  "check_pos ops scroll_ok s =
     (let oldrow = current_row s; oldcol = current_col s in
      if bottom_row_allowed s \<and> current_row s = mode_height (mode s) then
        (let s1 = s\<lparr>current_col := min (mode_width (mode s)) (current_col s)\<rparr>;
             s2 = (if current_col s1 < 1 then s1\<lparr>current_col := current_col s1 + 1\<rparr> else s1);
             s3 = move_cursor ops (current_row s2) (current_col s2) s2
         in (current_col s3 = oldcol, s3))
      else
        (let s0 = (if bottom_row_allowed s then s\<lparr>bottom_row_allowed := False\<rparr> else s);
             s1 = (if current_col s0 > mode_width (mode s0) then
                     (if current_row s0 < sa_bottom (scroll_area s0) \<or> scroll_ok then
                        s0\<lparr>current_col := current_col s0 - mode_width (mode s0),
                           current_row := current_row s0 + 1\<rparr>
                      else s0\<lparr>current_col := mode_width (mode s0)\<rparr>)
                   else if current_col s0 < 1 then
                     (if current_row s0 > sa_top (scroll_area s0) then
                        s0\<lparr>current_col := current_col s0 + mode_width (mode s0),
                           current_row := current_row s0 - 1\<rparr>
                      else s0\<lparr>current_col := 1\<rparr>)
                   else s0);
             s2 = (if current_row s1 > sa_bottom (scroll_area s1) then
                     (let s' = (if scroll_ok then scroll ops None s1 else s1)
                      in s'\<lparr>current_row := sa_bottom (scroll_area s')\<rparr>)
                   else if current_row s1 < sa_top (scroll_area s1) then
                     s1\<lparr>current_row := sa_top (scroll_area s1)\<rparr>
                   else s1);
             s3 = move_cursor ops (current_row s2) (current_col s2) s2
         in (current_row s3 = oldrow \<and> current_col s3 = oldcol, s3)))"

definition set_pos :: "'p TextPage_ops \<Rightarrow> int \<Rightarrow> int \<Rightarrow> bool \<Rightarrow> 'p TextScreen \<Rightarrow> 'p TextScreen" where
  "set_pos ops to_row to_col scroll_ok s =
     snd (check_pos ops scroll_ok
            (s\<lparr>overflow := False, current_row := to_row, current_col := to_col\<rparr>))"

definition check_wrap :: "'p TextPage_ops \<Rightarrow> bool \<Rightarrow> 'p TextScreen \<Rightarrow> 'p TextScreen" where
  "check_wrap ops do_scroll_down s =
     (if current_col s > mode_width (mode s) then
        (if current_row s < mode_height (mode s) then
           (let s1 = (if do_scroll_down then
                        (if current_row s < sa_bottom (scroll_area s)
                         then scroll_down ops (current_row s + 1) s else s)
                      else s);
                s2 = set_wrap ops (current_row s1) True s1
            in move_cursor ops (current_row s2 + 1) 1 s2)
         else s\<lparr>current_col := mode_width (mode s)\<rparr>)
      else s)"

text \<open>
  The first half of \<open>write_char\<close>, up to the call that puts the character: pending
  overflow is consumed, the line is wrapped and the position is corrected. The screen it
  returns holds the position at which \<open>write_char\<close> places its character.
\<close>

definition write_char_seek :: "'p TextPage_ops \<Rightarrow> bool \<Rightarrow> 'p TextScreen \<Rightarrow> 'p TextScreen" where
  "write_char_seek ops do_scroll_down s =
     (let s1 = (if overflow s then s\<lparr>current_col := current_col s + 1, overflow := False\<rparr> else s);
          s2 = check_wrap ops do_scroll_down s1
      in snd (check_pos ops True s2))"

definition write_char :: "'p TextPage_ops \<Rightarrow> char \<Rightarrow> bool \<Rightarrow> 'p TextScreen \<Rightarrow> 'p TextScreen" where
  "write_char ops c do_scroll_down s =
     (let s3 = write_char_seek ops do_scroll_down s;
          s4 = s3\<lparr>apage := pg_put_char_attr ops (apage s3) (current_row s3) (current_col s3)
                                c (attr s3) True\<rparr>;
          s5 = (if current_col s4 < mode_width (mode s4)
                then s4\<lparr>current_col := current_col s4 + 1\<rparr>
                else s4\<lparr>overflow := True\<rparr>)
      in snd (check_pos ops True s5))"





definition move_to_end :: "'p TextPage_ops \<Rightarrow> 'p TextScreen \<Rightarrow> 'p TextScreen" where
  "move_to_end ops s =
     (let row = pg_find_end_of_line ops (apage s) (current_row s) in
      if row_length ops row s = mode_width (mode s) then
        (set_pos ops row (row_length ops row s) True s)\<lparr>overflow := True\<rparr>
      else set_pos ops row (row_length ops row s + 1) True s)"

subsection \<open>Text screen callbacks\<close>

text \<open>
  The callbacks take their arguments already converted to integers (\<open>None\<close> for an
  omitted argument). A callback that raises leaves the screen as it is at the moment of
  the raise: the result pairs the error, if any, with that screen. The functions are
  named after \<open>locate_\<close>, \<open>csrlin_\<close>, \<open>pos_\<close> and \<open>view_print_\<close>.
\<close>

definition locate ::
  "'p TextPage_ops \<Rightarrow> int option \<Rightarrow> int option \<Rightarrow> int option \<Rightarrow> int option \<Rightarrow> int option
     \<Rightarrow> 'p TextScreen \<Rightarrow> error option \<times> 'p TextScreen" where
  "locate ops row_arg col_arg cursor_arg start stop s =
     (let row = (case row_arg of None \<Rightarrow> current_row s | Some r \<Rightarrow> r);
          col = (case col_arg of None \<Rightarrow> current_col s | Some c \<Rightarrow> c) in
      if row = mode_height (mode s) \<and> bb_visible (bottom_bar s) then (Some IFC, s)
      else if \<not> (if sa_active (scroll_area s)
                  then range_check (sa_top (scroll_area s)) (sa_bottom (scroll_area s)) [Some row]
                  else range_check 1 (mode_height (mode s)) [Some row]) then (Some IFC, s)
      else if \<not> range_check 1 (mode_width (mode s)) [Some col] then (Some IFC, s)
      else
        (let s1 = (if row = mode_height (mode s) then s\<lparr>bottom_row_allowed := True\<rparr> else s);
             s2 = set_pos ops row col False s1 in
         if (case cursor_arg of None \<Rightarrow> False
             | Some c \<Rightarrow> \<not> range_check 0 (if tandytext s2 then 255 else 1) [Some c])
         then (Some IFC, s2)
         else
           (let s3 = (case cursor_arg of None \<Rightarrow> s2
                      | Some c \<Rightarrow> s2\<lparr>cursor := cursor_set_visibility (c \<noteq> 0) (cursor s2)\<rparr>) in
            if start = None \<and> stop \<noteq> None then (Some IFC, s3)
            else
              (case start of
                 None \<Rightarrow> (None, s3)
               | Some st \<Rightarrow>
                   (let sp = (case stop of None \<Rightarrow> st | Some e \<Rightarrow> e) in
                    if \<not> range_check 0 31 [Some st, Some sp] then (Some IFC, s3)
                    else if is_text_mode (mode s3)
                         then (None, s3\<lparr>cursor := cursor_set_shape st sp (cursor s3)\<rparr>)
                         else (None, s3))))))"

definition csrlin :: "'p TextScreen \<Rightarrow> int" where
  "csrlin s =
     (if overflow s \<and> current_col s = mode_width (mode s)
         \<and> current_row s < sa_bottom (scroll_area s)
      then current_row s + 1
      else current_row s)"

definition pos :: "'p TextScreen \<Rightarrow> int" where
  "pos s =
     (if current_col s = mode_width (mode s) \<and> overflow s then 1 else current_col s)"

definition view_print ::
  "'p TextPage_ops \<Rightarrow> int option \<Rightarrow> int option \<Rightarrow> 'p TextScreen
     \<Rightarrow> error option \<times> 'p TextScreen" where
  "view_print ops start stop s =
     (if start = None \<and> stop = None then
        (None, s\<lparr>scroll_area := ScrollArea_unset (scroll_area s)\<rparr>)
      else
        (let max_line = (if tandytext s \<and> \<not> bb_visible (bottom_bar s) then 25 else 24) in
         if \<not> range_check 1 max_line [start, stop] then (Some IFC, s)
         else
           (case (start, stop) of
              (Some a, Some b) \<Rightarrow>
                if b < a then (Some IFC, s)
                else
                  (let s1 = s\<lparr>scroll_area := ScrollArea_set a b (scroll_area s)\<rparr>;
                       s2 = s1\<lparr>overflow := False\<rparr>
                   in (None, move_cursor ops a 1 s2))
            | _ \<Rightarrow> (Some TypeError, s))))"

subsection \<open>The properties of the cursor position\<close>

text \<open>The precondition on the geometry: the scroll area lies on the screen and the
  screen has at least one column.\<close>

definition viewport_ok :: "'p TextScreen \<Rightarrow> bool" where
  "viewport_ok s =
     (1 \<le> sa_top (scroll_area s) \<and> sa_top (scroll_area s) \<le> sa_bottom (scroll_area s)
      \<and> sa_bottom (scroll_area s) \<le> mode_height (mode s) \<and> 1 \<le> mode_width (mode s))"

definition col_in_range :: "'p TextScreen \<Rightarrow> bool" where
  "col_in_range s = (1 \<le> current_col s \<and> current_col s \<le> mode_width (mode s))"

definition row_in_view :: "'p TextScreen \<Rightarrow> bool" where
  "row_in_view s =
     (sa_top (scroll_area s) \<le> current_row s \<and> current_row s \<le> sa_bottom (scroll_area s))"



subsection \<open>A recording page and a sample screen\<close>

text \<open>
  A page that records the calls it receives and answers every query with a fixed
  value (halfwidth cells of attribute 7, empty unwrapped rows). It instantiates the
  page parameter wherever a statement is evaluated on a concrete screen.
\<close>

datatype page_call =
    PutCharAttr int int char int bool
  | ScrollUp int int int
  | ScrollDown int int int
  | SetWrap int bool
  | SetRowLength int int

definition recording_page :: "page_call list TextPage_ops" where
  "recording_page =
     \<lparr> pg_put_char_attr = (\<lambda>p row col c a adjust_end. p @ [PutCharAttr row col c a adjust_end]),
       pg_scroll_up = (\<lambda>p from_row to_row a. p @ [ScrollUp from_row to_row a]),
       pg_scroll_down = (\<lambda>p from_row to_row a. p @ [ScrollDown from_row to_row a]),
       pg_set_wrap = (\<lambda>p row wrap. p @ [SetWrap row wrap]),
       pg_wraps = (\<lambda>p row. False),
       pg_set_row_length = (\<lambda>p row len. p @ [SetRowLength row len]),
       pg_row_length = (\<lambda>p row. 0),
       pg_get_attr = (\<lambda>p row col. 7),
       pg_get_charwidth = (\<lambda>p row col. 1),
       pg_find_end_of_line = (\<lambda>p row. row) \<rparr>"

text \<open>An 80 by 25 text mode screen with the default scroll area (rows 1 to 24), the
  cursor at the given position.\<close>

definition text80 :: Mode where
  "text80 = \<lparr>mode_width = 80, mode_height = 25, is_text_mode = True\<rparr>"

definition screen_at :: "int \<Rightarrow> int \<Rightarrow> page_call list TextScreen" where
  "screen_at row col =
     \<lparr> tandytext = False,
       cursor = \<lparr>cur_row = row, cur_col = col, cur_attr_width = None,
                 cur_visible = False, cur_shape = (0, 0)\<rparr>,
       current_row = row,
       current_col = col,
       overflow = False,
       scroll_area = ScrollArea_init text80,
       bottom_row_allowed = False,
       bottom_bar = BottomBar_init,
       mode = text80,
       attr = 7,
       apage = [] \<rparr>"

text \<open>The sample screen after \<open>LOCATE 25, 80\<close> with the key bar off: the cursor is
  on the last physical row, which \<open>locate_\<close> has temporarily allowed.\<close>

definition after_locate_25_80 :: "page_call list TextScreen" where
  "after_locate_25_80 = snd (locate recording_page (Some 25) (Some 80) None None None (screen_at 1 1))"

section \<open>Properties of the pixel page\<close>

subsection \<open>Slices of rows and grids\<close>

lemma row_set_slice_length:
  "length v = xb - xa \<Longrightarrow> xa \<le> xb \<Longrightarrow> xb \<le> length r \<Longrightarrow> length (row_set_slice r xa xb v) = length r"
  by (simp add: row_set_slice_def)

lemma row_slice_set:
  "length v = xb - xa \<Longrightarrow> xa \<le> length r \<Longrightarrow> row_slice (row_set_slice r xa xb v) xa xb = v"
  by (simp add: row_set_slice_def row_slice_def)

lemma row_set_set:
  "length v = xb - xa \<Longrightarrow> xa \<le> xb \<Longrightarrow> xb \<le> length r \<Longrightarrow>
   row_set_slice (row_set_slice r xa xb v) xa xb v' = row_set_slice r xa xb v'"
  by (simp add: row_set_slice_def)

lemma row_set_slice_self:
  "xa \<le> xb \<Longrightarrow> xb \<le> length r \<Longrightarrow> row_set_slice r xa xb (row_slice r xa xb) = r"
  apply (simp add: row_set_slice_def row_slice_def)
  by (metis add_diff_inverse_nat append_take_drop_id drop_drop linorder_not_less add.commute)

lemma row_xor_xor:
  "length a = length b \<Longrightarrow> map2 (\<lambda>x y. x XOR y) (map2 (\<lambda>x y. x XOR y) a b) b = (a :: nat list)"
  by (induction a b rule: list_induct2) (simp_all add: xor.assoc)

lemma set_slice_take:
  "ya \<le> length m \<Longrightarrow> take ya (bm_set_slice m ya yb xa xb v) = take ya m"
  by (simp add: bm_set_slice_def)

lemma set_slice_drop:
  "ya \<le> yb \<Longrightarrow> yb \<le> length m \<Longrightarrow> length v = yb - ya \<Longrightarrow>
   drop yb (bm_set_slice m ya yb xa xb v) = drop yb m"
  by (simp add: bm_set_slice_def)

lemma set_slice_rows:
  "ya \<le> yb \<Longrightarrow> yb \<le> length m \<Longrightarrow> length v = yb - ya \<Longrightarrow>
   take (yb - ya) (drop ya (bm_set_slice m ya yb xa xb v))
     = map2 (\<lambda>r w. row_set_slice r xa xb w) (take (yb - ya) (drop ya m)) v"
  by (simp add: bm_set_slice_def)

lemma set_slice_length:
  "ya \<le> yb \<Longrightarrow> yb \<le> length m \<Longrightarrow> length v = yb - ya \<Longrightarrow>
   length (bm_set_slice m ya yb xa xb v) = length m"
  by (simp add: bm_set_slice_def)

lemma rebuild_rows:
  "ya \<le> yb \<Longrightarrow> yb \<le> length m \<Longrightarrow> take ya m @ take (yb - ya) (drop ya m) @ drop yb m = m"
  by (metis add_diff_inverse_nat append_take_drop_id linorder_not_less append.assoc take_add)

lemma rows_restore:
  assumes "length S = length a"
      and "\<forall>r \<in> set S. xb \<le> length r"
      and "\<forall>w \<in> set a. length w = xb - xa"
      and "xa \<le> xb"
  shows "map2 (\<lambda>r w. row_set_slice r xa xb w)
           (map2 (\<lambda>r w. row_set_slice r xa xb w) S
              (bm_elementwise (\<lambda>x y. x XOR y) (map (\<lambda>r. row_slice r xa xb) S) a))
           (bm_elementwise (\<lambda>x y. x XOR y)
              (map (\<lambda>r. row_slice r xa xb)
                 (map2 (\<lambda>r w. row_set_slice r xa xb w) S
                    (bm_elementwise (\<lambda>x y. x XOR y) (map (\<lambda>r. row_slice r xa xb) S) a)))
              a)
         = S"
  using assms
proof (induction S a rule: list_induct2)
  case Nil
  then show ?case by (simp add: bm_elementwise_def)
next
  case (Cons r S w a)
  have lw: "length w = xb - xa" and lr: "xb \<le> length r" using Cons.prems by simp_all
  have lsl: "length (row_slice r xa xb) = xb - xa"
    using lr by (simp add: row_slice_def)
  let ?v1 = "map2 (\<lambda>x y. x XOR y) (row_slice r xa xb) w"
  have lv1: "length ?v1 = xb - xa" using lw lsl by simp
  have a1: "row_slice (row_set_slice r xa xb ?v1) xa xb = ?v1"
    using lv1 lr Cons.prems(3) by (intro row_slice_set) simp_all
  have a2: "map2 (\<lambda>x y. x XOR y) ?v1 w = row_slice r xa xb"
    using lw lsl by (intro row_xor_xor) simp
  have a3: "row_set_slice (row_set_slice r xa xb ?v1) xa xb (row_slice r xa xb) = r"
    using lv1 lr Cons.prems(3) by (simp add: row_set_set row_set_slice_self)
  have IH: "map2 (\<lambda>r w. row_set_slice r xa xb w)
           (map2 (\<lambda>r w. row_set_slice r xa xb w) S
              (bm_elementwise (\<lambda>x y. x XOR y) (map (\<lambda>r. row_slice r xa xb) S) a))
           (bm_elementwise (\<lambda>x y. x XOR y)
              (map (\<lambda>r. row_slice r xa xb)
                 (map2 (\<lambda>r w. row_set_slice r xa xb w) S
                    (bm_elementwise (\<lambda>x y. x XOR y) (map (\<lambda>r. row_slice r xa xb) S) a)))
              a)
         = S"
    using Cons.IH Cons.prems by simp
  show ?case
    using IH a1 a2 a3 by (simp add: bm_elementwise_def)
qed

subsection \<open>XOR drawing is an involution\<close>

lemma put_rect_xor_twice_buffer:
  assumes wf: "wf_page p"
      and x: "x0 \<le> x1" "x1 < pp_width p"
      and y: "y0 \<le> y1" "y1 < pp_height p"
      and sh: "same_shape array x0 y0 x1 y1"
  shows "buffer (snd (put_rect (snd (put_rect p x0 y0 x1 y1 array tk_XOR))
                         x0 y0 x1 y1 array tk_XOR)) = buffer p"
proof -
  define m where "m = buffer p"
  define S where "S = take (y1 + 1 - y0) (drop y0 m)"
  define v1 where "v1 = bm_elementwise (\<lambda>x y. x XOR y) (map (\<lambda>r. row_slice r x0 (x1 + 1)) S) array"
  define m1 where "m1 = bm_set_slice m y0 (y1 + 1) x0 (x1 + 1) v1"
  have lm: "length m = pp_height p" and rows: "\<forall>r \<in> set m. length r = pp_width p"
    using wf by (simp_all add: wf_page_def m_def list_all_iff)
  have yb: "y0 \<le> y1 + 1" "y1 + 1 \<le> length m" using y lm by simp_all
  have lS: "length S = y1 + 1 - y0" using yb by (simp add: S_def)
  have la: "length array = y1 + 1 - y0" and ra: "\<forall>w \<in> set array. length w = x1 + 1 - x0"
    using sh by (simp_all add: same_shape_def list_all_iff)
  have rS: "\<forall>r \<in> set S. x1 + 1 \<le> length r"
  proof
    fix r assume "r \<in> set S"
    then have "r \<in> set m" unfolding S_def by (meson in_set_dropD in_set_takeD)
    then show "x1 + 1 \<le> length r" using rows x by simp
  qed
  have lv1: "length v1 = y1 + 1 - y0"
    using lS la by (simp add: v1_def bm_elementwise_def)
  have b1: "buffer (snd (put_rect p x0 y0 x1 y1 array tk_XOR)) = m1"
    by (simp add: put_rect_def Let_def m1_def v1_def bm_slice_def S_def m_def)
  have S1: "take (y1 + 1 - y0) (drop y0 m1) = map2 (\<lambda>r w. row_set_slice r x0 (x1 + 1) w) S v1"
    unfolding m1_def S_def using yb lv1 by (rule set_slice_rows)
  have t1: "take y0 m1 = take y0 m"
    unfolding m1_def using yb by (intro set_slice_take) simp
  have d1: "drop (y1 + 1) m1 = drop (y1 + 1) m"
    unfolding m1_def using yb lv1 by (rule set_slice_drop)
  have "buffer (snd (put_rect (snd (put_rect p x0 y0 x1 y1 array tk_XOR))
                         x0 y0 x1 y1 array tk_XOR))
        = bm_set_slice m1 y0 (y1 + 1) x0 (x1 + 1)
            (bm_elementwise (\<lambda>x y. x XOR y) (bm_slice m1 y0 (y1 + 1) x0 (x1 + 1)) array)"
    using b1 by (simp add: put_rect_def Let_def)
  also have "\<dots> = take y0 m @ S @ drop (y1 + 1) m"
    unfolding bm_set_slice_def bm_slice_def S1 t1 d1 v1_def
    using rows_restore [OF _ rS ra] lS la x by simp
  also have "\<dots> = m"
    unfolding S_def using yb by (rule rebuild_rows)
  finally show ?thesis by (simp add: m_def)
qed

lemma put_rect_fields:
  "pp_width (snd (put_rect p x0 y0 x1 y1 a t)) = pp_width p"
  "pp_height (snd (put_rect p x0 y0 x1 y1 a t)) = pp_height p"
  "pp_mask (snd (put_rect p x0 y0 x1 y1 a t)) = pp_mask p"
  by (simp_all add: put_rect_def Let_def)

text \<open>
  Claim C4 (XOR involution). For a well-formed page, a rectangle \<open>(x0, y0, x1, y1)\<close>
  inside the grid and a source array of the rectangle's shape, calling \<open>put_rect\<close>
  twice with the XOR token and the same array gives back the page it started from; in
  particular \<open>get_rect\<close> of the rectangle returns its original contents.
\<close>

theorem put_rect_xor_involution:
  assumes "wf_page p"
      and "x0 \<le> x1" "x1 < pp_width p"
      and "y0 \<le> y1" "y1 < pp_height p"
      and "same_shape array x0 y0 x1 y1"
  shows "snd (put_rect (snd (put_rect p x0 y0 x1 y1 array tk_XOR)) x0 y0 x1 y1 array tk_XOR) = p
       \<and> get_rect (snd (put_rect (snd (put_rect p x0 y0 x1 y1 array tk_XOR))
                           x0 y0 x1 y1 array tk_XOR)) x0 y0 x1 y1
         = get_rect p x0 y0 x1 y1"
proof -
  let ?q = "snd (put_rect (snd (put_rect p x0 y0 x1 y1 array tk_XOR)) x0 y0 x1 y1 array tk_XOR)"
  have "buffer ?q = buffer p" using assms by (rule put_rect_xor_twice_buffer)
  then have "?q = p" by (simp add: put_rect_fields)
  then show ?thesis by simp
qed

text \<open>The involution on the sample page: the rectangle of columns 1 to 2 of row 1,
  XORed twice with \<open>[[3, 1]]\<close>.\<close>

theorem put_rect_xor_involution_witness:
  "wf_page demo_page \<and> same_shape [[3, 1]] 1 1 2 1
   \<and> fst (put_rect demo_page 1 1 2 1 [[3, 1]] tk_XOR) = [[1, 0]]
   \<and> buffer (snd (put_rect demo_page 1 1 2 1 [[3, 1]] tk_XOR)) = [[0, 1, 2], [3, 1, 0]]
   \<and> snd (put_rect (snd (put_rect demo_page 1 1 2 1 [[3, 1]] tk_XOR)) 1 1 2 1 [[3, 1]] tk_XOR)
       = demo_page"
proof -
  have wf: "wf_page demo_page"
    by (simp add: wf_page_def demo_page_def PixelPage_init_def)
  have sh: "same_shape [[3, 1]] 1 1 2 1" by (simp add: same_shape_def)
  have x: "(1::nat) \<le> 2" "2 < pp_width demo_page" "(1::nat) \<le> 1" "1 < pp_height demo_page"
    by (simp_all add: demo_page_def PixelPage_init_def)
  have r: "fst (put_rect demo_page 1 1 2 1 [[3, 1]] tk_XOR) = [[1, 0]]"
    by code_simp
  have b: "buffer (snd (put_rect demo_page 1 1 2 1 [[3, 1]] tk_XOR)) = [[0, 1, 2], [3, 1, 0]]"
    by code_simp
  show ?thesis
    using put_rect_xor_involution [OF wf x sh] wf sh r b by simp
qed

subsection \<open>Pixel round trip and clipping\<close>

lemma wf_page_init: "wf_page (PixelPage_init width height bitsperpixel)"
  by (simp add: wf_page_def PixelPage_init_def ByteMatrix_def list_all_iff)

lemma wf_page_put_pixel: "wf_page p \<Longrightarrow> wf_page (put_pixel p x y v)"
  by (auto simp add: wf_page_def put_pixel_def bm_setitem_def list_all_iff in_grid_def
      dest!: set_update_subset_insert [THEN subsetD] split: if_splits)

lemma in_grid_wf:
  "wf_page p \<Longrightarrow> in_grid (buffer p) y x = in_bounds p x y"
  by (auto simp add: in_grid_def in_bounds_def wf_page_def list_all_iff)

lemma and_mask_self:
  "(v::nat) \<le> push_bit n 1 - 1 \<Longrightarrow> v AND (push_bit n 1 - 1) = v"
proof -
  assume "v \<le> push_bit n 1 - 1"
  then have "v < 2 ^ n" by (simp add: push_bit_eq_mult) (metis Suc_pred le_imp_less_Suc zero_less_numeral zero_less_power)
  then have "take_bit n v = v" by (simp add: take_bit_nat_eq_self)
  moreover have "(push_bit n 1 - 1 :: nat) = mask n" by (simp add: mask_eq_exp_minus_1 push_bit_eq_mult)
  ultimately show ?thesis by (simp add: take_bit_eq_mask)
qed

text \<open>
  Claim C3, as amended (pixel round trip and clipping). On a well-formed page whose mask
  is \<open>2 ^ bitsperpixel - 1\<close>: for an in-bounds coordinate and an attribute
  \<open>v\<close> that fits the mask (\<open>v \<le> mask\<close>), \<open>get_pixel\<close> after
  \<open>put_pixel\<close> returns \<open>v AND mask\<close> (which is \<open>v\<close>); a \<open>put_pixel\<close>
  outside the grid leaves the page unchanged; \<open>get_pixel\<close> outside the grid
  returns 0.
\<close>

theorem pixel_roundtrip_clipping:
  assumes wf: "wf_page p" and m: "pp_mask p = push_bit bitsperpixel 1 - 1"
  shows "(in_bounds p x y \<and> v \<le> pp_mask p \<longrightarrow>
            get_pixel (put_pixel p x y v) x y = v AND pp_mask p)
       \<and> (\<not> in_bounds p x y \<longrightarrow> put_pixel p x y v = p)
       \<and> (\<not> in_bounds p x y \<longrightarrow> get_pixel p x y = 0)"
proof (intro conjI impI)
  assume a: "in_bounds p x y \<and> v \<le> pp_mask p"
  then have g: "in_grid (buffer p) y x" using wf by (simp add: in_grid_wf)
  have ny: "nat y < length (buffer p)" and nx: "nat x < length (buffer p ! nat y)"
    using g by (auto simp add: in_grid_def split: if_splits)
  let ?b = "(buffer p)[nat y := (buffer p ! nat y)[nat x := v]]"
  have g': "in_grid ?b y x"
    using g ny by (simp add: in_grid_def split: if_splits)
  have "get_pixel (put_pixel p x y v) x y = v"
    using g g' ny nx by (simp add: put_pixel_def get_pixel_def bm_setitem_def bm_getitem_def)
  moreover have "v AND pp_mask p = v" using a and_mask_self [of v bitsperpixel] unfolding m by blast
  ultimately show "get_pixel (put_pixel p x y v) x y = v AND pp_mask p" by simp
next
  assume "\<not> in_bounds p x y"
  then show "put_pixel p x y v = p"
    using wf by (simp add: put_pixel_def bm_setitem_def in_grid_wf)
next
  assume "\<not> in_bounds p x y"
  then show "get_pixel p x y = 0"
    using wf by (simp add: get_pixel_def bm_getitem_def in_grid_wf)
qed

text \<open>
  Claim C3 as stated fails for an attribute wider than the mask, because
  \<open>put_pixel\<close> stores the attribute unmasked: on a 1 by 1 page with one bit per
  pixel (mask 1), writing 2 reads back 2, whereas \<open>2 AND 1 = 0\<close>.
\<close>

theorem pixel_mask_counterexample:
  "wf_page (PixelPage_init 1 1 1) \<and> in_bounds (PixelPage_init 1 1 1) 0 0
   \<and> get_pixel (put_pixel (PixelPage_init 1 1 1) 0 0 2) 0 0 = 2
   \<and> 2 AND pp_mask (PixelPage_init 1 1 1) = 0
   \<and> get_pixel (put_pixel (PixelPage_init 1 1 1) 0 0 2) 0 0 \<noteq> 2 AND pp_mask (PixelPage_init 1 1 1)"
  by code_simp

text \<open>The amended round trip on a 4 by 2 page with 2 bits per pixel.\<close>

theorem pixel_roundtrip_clipping_witness:
  "wf_page (PixelPage_init 4 2 2) \<and> pp_mask (PixelPage_init 4 2 2) = 3
   \<and> get_pixel (put_pixel (PixelPage_init 4 2 2) 3 1 2) 3 1 = 2
   \<and> put_pixel (PixelPage_init 4 2 2) 4 1 2 = PixelPage_init 4 2 2
   \<and> put_pixel (PixelPage_init 4 2 2) (-1) 0 2 = PixelPage_init 4 2 2
   \<and> get_pixel (put_pixel (PixelPage_init 4 2 2) 3 1 2) 3 2 = 0"
proof -
  let ?p = "PixelPage_init 4 2 2"
  have wf: "wf_page ?p" by code_simp
  have m: "pp_mask ?p = push_bit 2 1 - 1" by (simp add: PixelPage_init_def)
  have m3: "pp_mask ?p = 3" by code_simp
  have ib: "in_bounds ?p 3 1" "\<not> in_bounds ?p 4 1" "\<not> in_bounds ?p (-1) 0" by code_simp+
  have v: "(2::nat) \<le> pp_mask ?p" "(2::nat) AND pp_mask ?p = 2" by code_simp+
  have wf2: "wf_page (put_pixel ?p 3 1 2)" by code_simp
  have m2: "pp_mask (put_pixel ?p 3 1 2) = push_bit 2 1 - 1" by code_simp
  have ib2: "\<not> in_bounds (put_pixel ?p 3 1 2) 3 2" by code_simp
  show ?thesis
    using pixel_roundtrip_clipping [OF wf m, of 3 1 2] pixel_roundtrip_clipping [OF wf m, of 4 1 2]
      pixel_roundtrip_clipping [OF wf m, of "-1" 0 2]
      pixel_roundtrip_clipping [OF wf2 m2, of 3 2 0]
      wf m3 ib v ib2
    by simp
qed

section \<open>Properties of the text screen\<close>

subsection \<open>What the cursor moves leave unchanged\<close>

lemma move_cursor_fields:
  "current_row (move_cursor ops r c s) = r"
  "current_col (move_cursor ops r c s) = c"
  "mode (move_cursor ops r c s) = mode s"
  "scroll_area (move_cursor ops r c s) = scroll_area s"
  "bottom_row_allowed (move_cursor ops r c s) = bottom_row_allowed s"
  "overflow (move_cursor ops r c s) = overflow s"
  "attr (move_cursor ops r c s) = attr s"
  "apage (move_cursor ops r c s) = apage s"
  "tandytext (move_cursor ops r c s) = tandytext s"
  "bottom_bar (move_cursor ops r c s) = bottom_bar s"
  by (simp_all add: move_cursor_def Let_def)

lemma scroll_fields:
  "current_col (scroll ops fr s) = current_col s"
  "mode (scroll ops fr s) = mode s"
  "scroll_area (scroll ops fr s) = scroll_area s"
  "bottom_row_allowed (scroll ops fr s) = bottom_row_allowed s"
  "overflow (scroll ops fr s) = overflow s"
  "attr (scroll ops fr s) = attr s"
  "tandytext (scroll ops fr s) = tandytext s"
  "bottom_bar (scroll ops fr s) = bottom_bar s"
  by (simp_all add: scroll_def Let_def move_cursor_fields)

lemma scroll_down_fields:
  "current_col (scroll_down ops fr s) = current_col s"
  "mode (scroll_down ops fr s) = mode s"
  "scroll_area (scroll_down ops fr s) = scroll_area s"
  "bottom_row_allowed (scroll_down ops fr s) = bottom_row_allowed s"
  "overflow (scroll_down ops fr s) = overflow s"
  "attr (scroll_down ops fr s) = attr s"
  "tandytext (scroll_down ops fr s) = tandytext s"
  "bottom_bar (scroll_down ops fr s) = bottom_bar s"
  by (simp_all add: scroll_down_def Let_def move_cursor_fields)

lemma scroll_row:
  "current_row (scroll ops fr s) =
     (if current_row s > (case fr of None \<Rightarrow> sa_top (scroll_area s) | Some r \<Rightarrow> r)
      then current_row s - 1 else current_row s)"
  by (simp add: scroll_def Let_def move_cursor_fields)

lemma scroll_down_row:
  "current_row (scroll_down ops fr s) =
     (if current_row s \<ge> fr then current_row s + 1 else current_row s)"
  by (simp add: scroll_down_def Let_def move_cursor_fields)

lemma check_pos_fields:
  "mode (snd (check_pos ops ok s)) = mode s"
  "scroll_area (snd (check_pos ops ok s)) = scroll_area s"
  "overflow (snd (check_pos ops ok s)) = overflow s"
  "attr (snd (check_pos ops ok s)) = attr s"
  "tandytext (snd (check_pos ops ok s)) = tandytext s"
  "bottom_bar (snd (check_pos ops ok s)) = bottom_bar s"
  by (simp_all add: check_pos_def Let_def move_cursor_fields scroll_fields)

lemma check_pos_flag:
  "bottom_row_allowed (snd (check_pos ops ok s))
     = (bottom_row_allowed s \<and> current_row s = mode_height (mode s))"
  by (simp add: check_pos_def Let_def move_cursor_fields scroll_fields)

lemma check_pos_bottom_row:
  "bottom_row_allowed s \<Longrightarrow> current_row s = mode_height (mode s) \<Longrightarrow>
   current_row (snd (check_pos ops ok s)) = current_row s
   \<and> current_col (snd (check_pos ops ok s))
       = (if min (mode_width (mode s)) (current_col s) < 1
          then min (mode_width (mode s)) (current_col s) + 1
          else min (mode_width (mode s)) (current_col s))"
  by (simp add: check_pos_def Let_def move_cursor_fields)

lemma check_pos_row_in_view:
  "\<not> (bottom_row_allowed s \<and> current_row s = mode_height (mode s)) \<Longrightarrow>
   sa_top (scroll_area s) \<le> sa_bottom (scroll_area s) \<Longrightarrow>
   row_in_view (snd (check_pos ops ok s))"
  by (simp add: check_pos_def Let_def move_cursor_fields scroll_fields row_in_view_def)



subsection \<open>The cursor bounds\<close>

lemma set_wrap_fields:
  "current_row (set_wrap ops r w s) = current_row s"
  "current_col (set_wrap ops r w s) = current_col s"
  "mode (set_wrap ops r w s) = mode s"
  "scroll_area (set_wrap ops r w s) = scroll_area s"
  "bottom_row_allowed (set_wrap ops r w s) = bottom_row_allowed s"
  "overflow (set_wrap ops r w s) = overflow s"
  "attr (set_wrap ops r w s) = attr s"
  by (simp_all add: set_wrap_def)

lemma check_wrap_fields:
  "mode (check_wrap ops d s) = mode s"
  "scroll_area (check_wrap ops d s) = scroll_area s"
  "bottom_row_allowed (check_wrap ops d s) = bottom_row_allowed s"
  "overflow (check_wrap ops d s) = overflow s"
  "attr (check_wrap ops d s) = attr s"
  by (simp_all add: check_wrap_def Let_def move_cursor_fields set_wrap_fields scroll_down_fields)

lemma check_wrap_pos:
  "current_col (check_wrap ops d s) =
     (if current_col s > mode_width (mode s)
      then (if current_row s < mode_height (mode s) then 1 else mode_width (mode s))
      else current_col s)"
  "current_row (check_wrap ops d s) =
     (if current_col s > mode_width (mode s) \<and> current_row s < mode_height (mode s)
      then current_row s + 1 else current_row s)"
  by (simp_all add: check_wrap_def Let_def move_cursor_fields set_wrap_fields scroll_down_fields
      scroll_down_row)

lemma write_char_seek_fields:
  "mode (write_char_seek ops d s) = mode s"
  "scroll_area (write_char_seek ops d s) = scroll_area s"
  "overflow (write_char_seek ops d s) = False"
  "attr (write_char_seek ops d s) = attr s"
  by (simp_all add: write_char_seek_def Let_def check_pos_fields check_wrap_fields)






subsection \<open>The bottom-row flag\<close>

text \<open>
  Claim C9 (one-shot bottom-row flag). When \<open>_bottom_row_allowed\<close> is set and
  \<open>check_pos\<close> runs with \<open>current_row\<close> different from \<open>mode.height\<close>, the flag
  is cleared. More generally the flag is never set after a \<open>check_pos\<close> call in which
  the cursor is not on the bottom physical row, whatever the caller and the other
  arguments; it survives only if it was set and the cursor is on that row.
\<close>

theorem bottom_row_flag_one_shot:
  "(bottom_row_allowed s \<and> current_row s \<noteq> mode_height (mode s) \<longrightarrow>
      \<not> bottom_row_allowed (snd (check_pos ops scroll_ok s)))
   \<and> (current_row s \<noteq> mode_height (mode s) \<longrightarrow>
      \<not> bottom_row_allowed (snd (check_pos ops scroll_ok s)))
   \<and> (bottom_row_allowed (snd (check_pos ops scroll_ok s)) \<longrightarrow>
      bottom_row_allowed s \<and> current_row s = mode_height (mode s))"
  by (simp add: check_pos_flag)

text \<open>The flag is cleared on row 24 and kept on row 25 of the sample screen.\<close>

theorem bottom_row_flag_one_shot_witness:
  "bottom_row_allowed ((screen_at 24 5)\<lparr>bottom_row_allowed := True\<rparr>)
   \<and> current_row ((screen_at 24 5)\<lparr>bottom_row_allowed := True\<rparr>)
        \<noteq> mode_height (mode ((screen_at 24 5)\<lparr>bottom_row_allowed := True\<rparr>))
   \<and> \<not> bottom_row_allowed
        (snd (check_pos recording_page False ((screen_at 24 5)\<lparr>bottom_row_allowed := True\<rparr>)))
   \<and> bottom_row_allowed
        (snd (check_pos recording_page False ((screen_at 25 5)\<lparr>bottom_row_allowed := True\<rparr>)))"
proof -
  let ?s = "(screen_at 24 5)\<lparr>bottom_row_allowed := True\<rparr>"
  have a: "bottom_row_allowed ?s" by simp
  have b: "current_row ?s \<noteq> mode_height (mode ?s)" by code_simp
  have c: "bottom_row_allowed
        (snd (check_pos recording_page False ((screen_at 25 5)\<lparr>bottom_row_allowed := True\<rparr>)))"
    by code_simp
  show ?thesis
    using bottom_row_flag_one_shot [of ?s recording_page False] a b c by blast
qed

subsection \<open>Scrolling\<close>


subsection \<open>Reported position\<close>

text \<open>
  Claim C7 (overflow-adjusted position reporting). When \<open>overflow\<close> is set and
  \<open>current_col = mode.width\<close>, \<open>pos_\<close> returns 1 and \<open>csrlin_\<close> returns
  \<open>current_row + 1\<close> if \<open>current_row < scroll_area.bottom\<close> and \<open>current_row\<close>
  otherwise; when \<open>overflow\<close> is not set, \<open>pos_\<close> returns \<open>current_col\<close> and
  \<open>csrlin_\<close> returns \<open>current_row\<close>.
\<close>

theorem overflow_adjusted_position:
  "(overflow s \<and> current_col s = mode_width (mode s) \<longrightarrow>
      pos s = 1
      \<and> csrlin s = (if current_row s < sa_bottom (scroll_area s)
                    then current_row s + 1 else current_row s))
   \<and> (\<not> overflow s \<longrightarrow> pos s = current_col s \<and> csrlin s = current_row s)"
  by (simp add: pos_def csrlin_def)

text \<open>The reported position at (5, 80) and (24, 80) with and without overflow.\<close>

theorem overflow_adjusted_position_witness:
  "overflow ((screen_at 5 80)\<lparr>overflow := True\<rparr>)
   \<and> current_col ((screen_at 5 80)\<lparr>overflow := True\<rparr>)
       = mode_width (mode ((screen_at 5 80)\<lparr>overflow := True\<rparr>))
   \<and> pos ((screen_at 5 80)\<lparr>overflow := True\<rparr>) = 1
   \<and> csrlin ((screen_at 5 80)\<lparr>overflow := True\<rparr>) = 6
   \<and> csrlin ((screen_at 24 80)\<lparr>overflow := True\<rparr>) = 24
   \<and> pos (screen_at 5 80) = 80
   \<and> csrlin (screen_at 5 80) = 5"
proof -
  let ?s = "(screen_at 5 80)\<lparr>overflow := True\<rparr>"
  let ?t = "(screen_at 24 80)\<lparr>overflow := True\<rparr>"
  have a: "overflow ?s" "current_col ?s = mode_width (mode ?s)"
      "current_row ?s < sa_bottom (scroll_area ?s)" "current_row ?s + 1 = 6"
    by code_simp+
  have b: "overflow ?t" "current_col ?t = mode_width (mode ?t)"
      "\<not> current_row ?t < sa_bottom (scroll_area ?t)" "current_row ?t = 24"
    by code_simp+
  have c: "\<not> overflow (screen_at 5 80)" "current_col (screen_at 5 80) = 80"
      "current_row (screen_at 5 80) = 5"
    by code_simp+
  show ?thesis
    using overflow_adjusted_position [of ?s] overflow_adjusted_position [of ?t]
      overflow_adjusted_position [of "screen_at 5 80"] a b c
    by simp
qed

subsection \<open>VIEW PRINT and LOCATE\<close>

text \<open>
  Claim C5 (\<open>view_print_\<close>). With both arguments given and in range
  (\<open>1 \<le> start \<le> stop \<le> max_line\<close>, where \<open>max_line\<close> is 25 on Tandy/PCjr with
  the key bar off and 24 otherwise) it sets the bounds of the scroll area to
  \<open>(start, stop)\<close>, marks it active and moves the cursor to \<open>(start, 1)\<close>. With no
  arguments it resets the bounds to \<open>(1, height - 1)\<close> and \<open>active\<close> to false,
  \<open>height\<close> being the height the scroll area holds, which is the mode's height. With
  \<open>stop < start\<close>, both in range, it raises the illegal-function-call error and
  changes nothing.
\<close>

theorem view_print_behaviour:
  "(1 \<le> start \<and> start \<le> stop
      \<and> stop \<le> (if tandytext s \<and> \<not> bb_visible (bottom_bar s) then 25 else 24) \<longrightarrow>
        fst (view_print ops (Some start) (Some stop) s) = None
        \<and> bounds (scroll_area (snd (view_print ops (Some start) (Some stop) s))) = (start, stop)
        \<and> sa_active (scroll_area (snd (view_print ops (Some start) (Some stop) s)))
        \<and> current_row (snd (view_print ops (Some start) (Some stop) s)) = start
        \<and> current_col (snd (view_print ops (Some start) (Some stop) s)) = 1)
   \<and> fst (view_print ops None None s) = None
   \<and> bounds (scroll_area (snd (view_print ops None None s))) = (1, sa_height (scroll_area s) - 1)
   \<and> sa_active (scroll_area (snd (view_print ops None None s))) = False
   \<and> (sa_height (scroll_area s) = mode_height (mode s) \<longrightarrow>
        bounds (scroll_area (snd (view_print ops None None s))) = (1, mode_height (mode s) - 1))
   \<and> (1 \<le> stop \<and> stop < start
      \<and> start \<le> (if tandytext s \<and> \<not> bb_visible (bottom_bar s) then 25 else 24) \<longrightarrow>
        view_print ops (Some start) (Some stop) s = (Some IFC, s))"
  by (simp add: view_print_def Let_def range_check_def bounds_def ScrollArea_set_def
      ScrollArea_unset_def move_cursor_fields)

text \<open>\<open>VIEW PRINT 5,10\<close>, \<open>VIEW PRINT\<close> and \<open>VIEW PRINT 10,5\<close> on the sample
  screen.\<close>

theorem view_print_behaviour_witness:
  "fst (view_print recording_page (Some 5) (Some 10) (screen_at 20 7)) = None
   \<and> bounds (scroll_area (snd (view_print recording_page (Some 5) (Some 10) (screen_at 20 7))))
       = (5, 10)
   \<and> current_row (snd (view_print recording_page (Some 5) (Some 10) (screen_at 20 7))) = 5
   \<and> current_col (snd (view_print recording_page (Some 5) (Some 10) (screen_at 20 7))) = 1
   \<and> bounds (scroll_area (snd (view_print recording_page None None (screen_at 20 7)))) = (1, 24)
   \<and> view_print recording_page (Some 10) (Some 5) (screen_at 20 7) = (Some IFC, screen_at 20 7)"
proof -
  let ?s = "screen_at 20 7"
  have m: "(if tandytext ?s \<and> \<not> bb_visible (bottom_bar ?s) then 25 else 24) = (24::int)"
    by code_simp
  have h: "sa_height (scroll_area ?s) - 1 = 24" by code_simp
  show ?thesis
    using view_print_behaviour [where start = 5 and stop = 10 and s = ?s and ops = recording_page,
        unfolded m]
      view_print_behaviour [where start = 10 and stop = 5 and s = ?s and ops = recording_page,
        unfolded m] h
    by simp
qed

text \<open>
  Claim C6 (\<open>locate_\<close> bottom-row error atomicity). A call to \<open>locate_\<close> whose row
  (given, or the current row when omitted) is \<open>mode.height\<close> while the bottom bar is
  visible raises the illegal-function-call error and leaves the whole screen, hence
  \<open>current_row\<close>, \<open>current_col\<close>, \<open>overflow\<close>, \<open>_bottom_row_allowed\<close> and the
  cursor's visibility and shape, unchanged.
\<close>

theorem locate_bottom_row_error:
  assumes "bb_visible (bottom_bar s)"
      and "(case row of None \<Rightarrow> current_row s | Some r \<Rightarrow> r) = mode_height (mode s)"
  shows "locate ops row col cursor_arg start stop s = (Some IFC, s)"
  using assms by (simp add: locate_def Let_def)

text \<open>\<open>LOCATE 25,1,1,0,7\<close> fails with the key bar on and succeeds, allowing the
  bottom row, with the key bar off.\<close>

theorem locate_bottom_row_error_witness:
  "bb_visible (bottom_bar ((screen_at 3 4)\<lparr>bottom_bar := BottomBar_init\<lparr>bb_visible := True\<rparr>\<rparr>))
   \<and> locate recording_page (Some 25) (Some 1) (Some 1) (Some 0) (Some 7)
        ((screen_at 3 4)\<lparr>bottom_bar := BottomBar_init\<lparr>bb_visible := True\<rparr>\<rparr>)
      = (Some IFC, (screen_at 3 4)\<lparr>bottom_bar := BottomBar_init\<lparr>bb_visible := True\<rparr>\<rparr>)
   \<and> fst (locate recording_page (Some 25) (Some 1) (Some 1) (Some 0) (Some 7) (screen_at 3 4))
      = None
   \<and> bottom_row_allowed
        (snd (locate recording_page (Some 25) (Some 1) (Some 1) (Some 0) (Some 7) (screen_at 3 4)))"
proof -
  let ?s = "(screen_at 3 4)\<lparr>bottom_bar := BottomBar_init\<lparr>bb_visible := True\<rparr>\<rparr>"
  have a: "bb_visible (bottom_bar ?s)" by simp
  have b: "(case Some 25 of None \<Rightarrow> current_row ?s | Some r \<Rightarrow> r) = mode_height (mode ?s)"
    by code_simp
  have c: "fst (locate recording_page (Some 25) (Some 1) (Some 1) (Some 0) (Some 7) (screen_at 3 4))
      = None"
    "bottom_row_allowed
        (snd (locate recording_page (Some 25) (Some 1) (Some 1) (Some 0) (Some 7) (screen_at 3 4)))"
    by code_simp+
  show ?thesis
    using locate_bottom_row_error [OF a b, of recording_page "Some 1" "Some 1" "Some 0" "Some 7"] a c
    by simp
qed

subsection \<open>Deferred wrap\<close>

lemma check_pos_in_range:
  assumes "col_in_range s"
  shows "current_col (snd (check_pos ops ok s)) = current_col s"
    and "current_row (snd (check_pos ops ok s)) =
           (if bottom_row_allowed s \<and> current_row s = mode_height (mode s) then current_row s
            else if current_row s > sa_bottom (scroll_area s) then sa_bottom (scroll_area s)
            else if current_row s < sa_top (scroll_area s) then sa_top (scroll_area s)
            else current_row s)"
    and "apage (snd (check_pos ops ok s)) =
           (if \<not> (bottom_row_allowed s \<and> current_row s = mode_height (mode s))
               \<and> current_row s > sa_bottom (scroll_area s) \<and> ok
            then pg_scroll_up ops (apage s) (sa_top (scroll_area s)) (sa_bottom (scroll_area s)) (attr s)
            else apage s)"
  using assms
  by (simp_all add: check_pos_def Let_def move_cursor_fields scroll_fields col_in_range_def
      scroll_def)

lemma check_wrap_apage:
  "current_col s > mode_width (mode s) \<Longrightarrow> current_row s < mode_height (mode s) \<Longrightarrow>
   apage (check_wrap ops d s) =
     pg_set_wrap ops
       (if d \<and> current_row s < sa_bottom (scroll_area s)
        then pg_scroll_down ops (apage s) (current_row s + 1) (sa_bottom (scroll_area s)) (attr s)
        else apage s)
       (current_row s) True"
  by (simp add: check_wrap_def Let_def move_cursor_fields set_wrap_def scroll_down_def)

lemma write_char_at_width:
  assumes v: "viewport_ok s"
      and w: "current_col (write_char_seek ops d s) = mode_width (mode s)"
  shows "overflow (write_char ops c d s)"
    and "current_col (write_char ops c d s) = mode_width (mode s)"
    and "mode (write_char ops c d s) = mode s"
    and "scroll_area (write_char ops c d s) = scroll_area s"
    and "attr (write_char ops c d s) = attr s"
    and "bottom_row_allowed (write_char ops c d s) \<longrightarrow>
           current_row (write_char ops c d s) = mode_height (mode s)"
    and "\<not> bottom_row_allowed (write_char ops c d s) \<longrightarrow> row_in_view (write_char ops c d s)"
proof -
  let ?s3 = "write_char_seek ops d s"
  let ?s5 = "?s3\<lparr>apage := pg_put_char_attr ops (apage ?s3) (current_row ?s3) (current_col ?s3)
                                c (attr ?s3) True, overflow := True\<rparr>"
  have eq: "write_char ops c d s = snd (check_pos ops True ?s5)"
    using w by (simp add: write_char_def Let_def write_char_seek_fields)
  have cr: "col_in_range ?s5"
    using v w by (simp add: col_in_range_def viewport_ok_def write_char_seek_fields)
  show "overflow (write_char ops c d s)"
    by (simp add: eq check_pos_fields)
  show "current_col (write_char ops c d s) = mode_width (mode s)"
    using check_pos_in_range(1) [OF cr] w by (simp add: eq)
  show "mode (write_char ops c d s) = mode s"
    by (simp add: eq check_pos_fields write_char_seek_fields)
  show "scroll_area (write_char ops c d s) = scroll_area s"
    by (simp add: eq check_pos_fields write_char_seek_fields)
  show "attr (write_char ops c d s) = attr s"
    by (simp add: eq check_pos_fields write_char_seek_fields)
  show "bottom_row_allowed (write_char ops c d s) \<longrightarrow>
           current_row (write_char ops c d s) = mode_height (mode s)"
  proof
    assume "bottom_row_allowed (write_char ops c d s)"
    then have b: "bottom_row_allowed ?s5" and r: "current_row ?s5 = mode_height (mode ?s5)"
      by (simp_all add: eq check_pos_flag)
    have "current_row (snd (check_pos ops True ?s5)) = current_row ?s5"
      using check_pos_bottom_row [OF b r] by blast
    then show "current_row (write_char ops c d s) = mode_height (mode s)"
      using r by (simp add: eq write_char_seek_fields)
  qed
  show "\<not> bottom_row_allowed (write_char ops c d s) \<longrightarrow> row_in_view (write_char ops c d s)"
  proof
    assume "\<not> bottom_row_allowed (write_char ops c d s)"
    then have "\<not> (bottom_row_allowed ?s5 \<and> current_row ?s5 = mode_height (mode ?s5))"
      by (simp add: eq check_pos_flag)
    moreover have "sa_top (scroll_area ?s5) \<le> sa_bottom (scroll_area ?s5)"
      using v by (simp add: viewport_ok_def write_char_seek_fields)
    ultimately show "row_in_view (write_char ops c d s)"
      unfolding eq by (rule check_pos_row_in_view)
  qed
qed

lemma seek_after_overflow:
  assumes o: "overflow s" and c: "current_col s = mode_width (mode s)"
      and w: "1 \<le> mode_width (mode s)"
  shows "\<not> overflow (write_char_seek ops d s)"
    and "current_row s < mode_height (mode s) \<Longrightarrow> \<not> bottom_row_allowed s \<Longrightarrow>
         row_in_view s \<Longrightarrow>
         current_col (write_char_seek ops d s) = 1
         \<and> current_row (write_char_seek ops d s)
             = (if current_row s < sa_bottom (scroll_area s) then current_row s + 1
                else sa_bottom (scroll_area s))
         \<and> (\<not> current_row s < sa_bottom (scroll_area s) \<longrightarrow>
              apage (write_char_seek ops d s)
                = pg_scroll_up ops (pg_set_wrap ops (apage s) (current_row s) True)
                    (sa_top (scroll_area s)) (sa_bottom (scroll_area s)) (attr s))"
    and "current_row s = mode_height (mode s) \<Longrightarrow>
         bottom_row_allowed s \<or> row_in_view s \<Longrightarrow>
         current_col (write_char_seek ops d s) = mode_width (mode s)
         \<and> current_row (write_char_seek ops d s) = current_row s"
proof -
  let ?s1 = "s\<lparr>current_col := current_col s + 1, overflow := False\<rparr>"
  let ?s2 = "check_wrap ops d ?s1"
  have eq: "write_char_seek ops d s = snd (check_pos ops True ?s2)"
    using o by (simp add: write_char_seek_def Let_def)
  show "\<not> overflow (write_char_seek ops d s)"
    by (simp add: write_char_seek_fields)
  have gt: "current_col ?s1 > mode_width (mode ?s1)" using c by simp
  {
    assume r: "current_row s < mode_height (mode s)" and f: "\<not> bottom_row_allowed s"
      and iv: "row_in_view s"
    have p: "current_col ?s2 = 1" "current_row ?s2 = current_row s + 1"
      using gt r by (simp_all add: check_wrap_pos)
    have cr: "col_in_range ?s2"
      using p w by (simp add: col_in_range_def check_wrap_fields)
    have pg: "apage ?s2 =
        pg_set_wrap ops
          (if d \<and> current_row s < sa_bottom (scroll_area s)
           then pg_scroll_down ops (apage s) (current_row s + 1) (sa_bottom (scroll_area s)) (attr s)
           else apage s)
          (current_row s) True"
      using check_wrap_apage [of ?s1 ops d] gt r by simp
    show "current_col (write_char_seek ops d s) = 1
         \<and> current_row (write_char_seek ops d s)
             = (if current_row s < sa_bottom (scroll_area s) then current_row s + 1
                else sa_bottom (scroll_area s))
         \<and> (\<not> current_row s < sa_bottom (scroll_area s) \<longrightarrow>
              apage (write_char_seek ops d s)
                = pg_scroll_up ops (pg_set_wrap ops (apage s) (current_row s) True)
                    (sa_top (scroll_area s)) (sa_bottom (scroll_area s)) (attr s))"
      using check_pos_in_range [OF cr, of ops True] p f iv pg
      by (auto simp add: eq check_wrap_fields row_in_view_def)
  }
  {
    assume r: "current_row s = mode_height (mode s)"
      and fv: "bottom_row_allowed s \<or> row_in_view s"
    have p: "current_col ?s2 = mode_width (mode s)" "current_row ?s2 = current_row s"
      using gt r by (simp_all add: check_wrap_pos)
    have cr: "col_in_range ?s2"
      using p w by (simp add: col_in_range_def check_wrap_fields)
    show "current_col (write_char_seek ops d s) = mode_width (mode s)
         \<and> current_row (write_char_seek ops d s) = current_row s"
      using check_pos_in_range(1,2) [OF cr, of ops True] p fv r
      by (auto simp add: eq check_wrap_fields row_in_view_def)
  }
qed

text \<open>
  Claim C2, as amended (deferred wrap of \<open>write_char\<close>). Whenever \<open>write_char\<close>
  places its character exactly on column \<open>mode.width\<close>, afterwards \<open>overflow\<close> is
  true and \<open>current_col = mode.width\<close>. The next \<open>write_char\<close> clears
  \<open>overflow\<close> before placing its character and, if \<open>current_row < mode.height\<close>,
  places it on column 1 of row \<open>current_row + 1\<close>, or of row \<open>scroll_area.bottom\<close>
  after wrapping the row and scrolling the scroll area up when \<open>current_row\<close> is its
  last row; if \<open>current_row = mode.height\<close> it does not wrap and places its
  character on column \<open>mode.width\<close> of the same row.
\<close>

theorem deferred_wrap:
  assumes v: "viewport_ok s"
      and w: "current_col (write_char_seek ops d s) = mode_width (mode s)"
  shows "overflow (write_char ops c d s)
       \<and> current_col (write_char ops c d s) = mode_width (mode s)
       \<and> \<not> overflow (write_char_seek ops d' (write_char ops c d s))
       \<and> (current_row (write_char ops c d s) < mode_height (mode s) \<longrightarrow>
            current_col (write_char_seek ops d' (write_char ops c d s)) = 1
            \<and> current_row (write_char_seek ops d' (write_char ops c d s))
                = (if current_row (write_char ops c d s) < sa_bottom (scroll_area s)
                   then current_row (write_char ops c d s) + 1
                   else sa_bottom (scroll_area s))
            \<and> (\<not> current_row (write_char ops c d s) < sa_bottom (scroll_area s) \<longrightarrow>
                 apage (write_char_seek ops d' (write_char ops c d s))
                   = pg_scroll_up ops
                       (pg_set_wrap ops (apage (write_char ops c d s))
                          (current_row (write_char ops c d s)) True)
                       (sa_top (scroll_area s)) (sa_bottom (scroll_area s)) (attr s)))
       \<and> (current_row (write_char ops c d s) = mode_height (mode s) \<longrightarrow>
            current_col (write_char_seek ops d' (write_char ops c d s)) = mode_width (mode s)
            \<and> current_row (write_char_seek ops d' (write_char ops c d s))
                = current_row (write_char ops c d s))"
proof -
  define s1 where "s1 = write_char ops c d s"
  note f = write_char_at_width [OF v w, of c, folded s1_def]
  have o: "overflow s1" and cw: "current_col s1 = mode_width (mode s1)"
    and w1: "1 \<le> mode_width (mode s1)"
    using f v by (simp_all add: viewport_ok_def)
  have a: "\<not> overflow (write_char_seek ops d' s1)"
    using seek_after_overflow(1) [OF o cw w1] .
  have b: "current_row s1 < mode_height (mode s) \<longrightarrow>
            current_col (write_char_seek ops d' s1) = 1
            \<and> current_row (write_char_seek ops d' s1)
                = (if current_row s1 < sa_bottom (scroll_area s) then current_row s1 + 1
                   else sa_bottom (scroll_area s))
            \<and> (\<not> current_row s1 < sa_bottom (scroll_area s) \<longrightarrow>
                 apage (write_char_seek ops d' s1)
                   = pg_scroll_up ops (pg_set_wrap ops (apage s1) (current_row s1) True)
                       (sa_top (scroll_area s)) (sa_bottom (scroll_area s)) (attr s))"
  proof
    assume r: "current_row s1 < mode_height (mode s)"
    then have nf: "\<not> bottom_row_allowed s1" using f(6) by auto
    then have iv: "row_in_view s1" using f(7) by simp
    show "current_col (write_char_seek ops d' s1) = 1
            \<and> current_row (write_char_seek ops d' s1)
                = (if current_row s1 < sa_bottom (scroll_area s) then current_row s1 + 1
                   else sa_bottom (scroll_area s))
            \<and> (\<not> current_row s1 < sa_bottom (scroll_area s) \<longrightarrow>
                 apage (write_char_seek ops d' s1)
                   = pg_scroll_up ops (pg_set_wrap ops (apage s1) (current_row s1) True)
                       (sa_top (scroll_area s)) (sa_bottom (scroll_area s)) (attr s))"
      using seek_after_overflow(2) [OF o cw w1 _ nf iv, of ops d'] r f(3,4,5) by simp
  qed
  have c: "current_row s1 = mode_height (mode s) \<longrightarrow>
            current_col (write_char_seek ops d' s1) = mode_width (mode s)
            \<and> current_row (write_char_seek ops d' s1) = current_row s1"
  proof
    assume r: "current_row s1 = mode_height (mode s)"
    have fv: "bottom_row_allowed s1 \<or> row_in_view s1" using f(7) by blast
    show "current_col (write_char_seek ops d' s1) = mode_width (mode s)
            \<and> current_row (write_char_seek ops d' s1) = current_row s1"
      using seek_after_overflow(3) [OF o cw w1 _ fv, of ops d'] r f(3) by simp
  qed
  show ?thesis
    using o cw f(3) a b c unfolding s1_def by simp
qed


text \<open>
  Claim C2 as stated fails on the last physical row: after \<open>LOCATE 25, 80\<close> a first
  \<open>write_char\<close> fills column 80 of row 25 and sets \<open>overflow\<close>; the next one
  stays on row 25, column 80 and overwrites the character.
\<close>

theorem deferred_wrap_counterexample:
  "fst (locate recording_page (Some 25) (Some 80) None None None (screen_at 1 1)) = None
   \<and> viewport_ok after_locate_25_80
   \<and> current_row after_locate_25_80 = 25
   \<and> current_col (write_char_seek recording_page False after_locate_25_80)
       = mode_width (mode after_locate_25_80)
   \<and> overflow (write_char recording_page (CHR ''X'') False after_locate_25_80)
   \<and> current_row (write_char recording_page (CHR ''X'') False after_locate_25_80) = 25
   \<and> current_row (write_char_seek recording_page False
        (write_char recording_page (CHR ''X'') False after_locate_25_80)) = 25
   \<and> current_col (write_char_seek recording_page False
        (write_char recording_page (CHR ''X'') False after_locate_25_80)) = 80
   \<and> apage (write_char recording_page (CHR ''Y'') False
        (write_char recording_page (CHR ''X'') False after_locate_25_80))
       = [PutCharAttr 25 80 (CHR ''X'') 7 True, PutCharAttr 25 80 (CHR ''Y'') 7 True]"
  by code_simp

text \<open>The deferred wrap from (24, 80), with a scroll, and from (5, 80), without.\<close>

theorem deferred_wrap_witness:
  "viewport_ok (screen_at 24 80)
   \<and> current_col (write_char_seek recording_page False (screen_at 24 80))
       = mode_width (mode (screen_at 24 80))
   \<and> overflow (write_char recording_page (CHR ''X'') False (screen_at 24 80))
   \<and> current_col (write_char recording_page (CHR ''X'') False (screen_at 24 80)) = 80
   \<and> current_row (write_char recording_page (CHR ''X'') False (screen_at 24 80)) = 24
   \<and> \<not> overflow (write_char_seek recording_page False
          (write_char recording_page (CHR ''X'') False (screen_at 24 80)))
   \<and> current_col (write_char_seek recording_page False
          (write_char recording_page (CHR ''X'') False (screen_at 24 80))) = 1
   \<and> current_row (write_char_seek recording_page False
          (write_char recording_page (CHR ''X'') False (screen_at 24 80))) = 24
   \<and> apage (write_char_seek recording_page False
          (write_char recording_page (CHR ''X'') False (screen_at 24 80)))
       = [PutCharAttr 24 80 (CHR ''X'') 7 True, SetWrap 24 True, ScrollUp 1 24 7]
   \<and> current_row (write_char_seek recording_page False
          (write_char recording_page (CHR ''X'') False (screen_at 5 80))) = 6
   \<and> current_col (write_char_seek recording_page False
          (write_char recording_page (CHR ''X'') False (screen_at 5 80))) = 1"
proof -
  let ?s = "screen_at 24 80"
  let ?u = "screen_at 5 80"
  have v: "viewport_ok ?s" "viewport_ok ?u" by code_simp+
  have w: "current_col (write_char_seek recording_page False ?s) = mode_width (mode ?s)"
      "current_col (write_char_seek recording_page False ?u) = mode_width (mode ?u)"
    by code_simp+
  have e: "mode_width (mode ?s) = 80" "mode_height (mode ?s) = 25"
      "sa_bottom (scroll_area ?s) = 24" "sa_top (scroll_area ?s) = 1" "attr ?s = 7"
      "mode_width (mode ?u) = 80" "mode_height (mode ?u) = 25"
      "sa_bottom (scroll_area ?u) = 24"
      "current_row (write_char recording_page (CHR ''X'') False ?s) = 24"
      "current_row (write_char recording_page (CHR ''X'') False ?u) = 5"
      "apage (write_char recording_page (CHR ''X'') False ?s) = [PutCharAttr 24 80 (CHR ''X'') 7 True]"
    by code_simp+
  have pg: "pg_scroll_up recording_page
              (pg_set_wrap recording_page [PutCharAttr 24 80 (CHR ''X'') 7 True] 24 True) 1 24 7
            = [PutCharAttr 24 80 (CHR ''X'') 7 True, SetWrap 24 True, ScrollUp 1 24 7]"
    by (simp add: recording_page_def)
  show ?thesis
    using deferred_wrap [OF v(1) w(1), of "CHR ''X''" False]
      deferred_wrap [OF v(2) w(2), of "CHR ''X''" False]
      v w e pg
    by simp
qed

end
